theory Spec2Isabelle
  imports Complex_Main
begin

section \<open>Gas analysis script: \<open>src/utils/scripts/analyze_gas.py\<close>\<close>

text \<open>
  The script reads a log file, extracts transaction hashes, fetches one receipt per
  hash over JSON-RPC, writes the receipts to a JSON file and prints gas statistics.
  Everything the script takes from outside (the log file, the answers of the RPC
  endpoint, whether the output file can be written) is a field of the environment
  \<open>env\<close>; everything it does to the outside (what it prints, the requests it issues,
  what happens to the output file, its exit status) is a field of the result \<open>run\<close>.
  Python strings are modelled as \<open>string\<close> (ASCII characters); the digits and
  white space outside ASCII that \<open>int()\<close> also accepts are outside the model. The
  traceback of an uncaught exception is not among the printed messages: the exception
  is the field \<open>uncaught\<close> of the run.
\<close>

subsection \<open>Python values\<close>

text \<open>Python floats: finite values, the two infinities and NaN.\<close>

datatype pyfloat = Finite rat | Infinity | NegInfinity | NaN

text \<open>
  What \<open>response.json()\<close> returns: \<open>None\<close>, \<open>bool\<close>, \<open>int\<close>, \<open>float\<close>, \<open>str\<close>,
  \<open>list\<close> or \<open>dict\<close>. A dict is an association list in insertion order; its keys are
  distinct.
\<close>

datatype json =
    JNull
  | JBool bool
  | JInt int
  | JFloat pyfloat
  | JString string
  | JArray "json list"
  | JObject "(string \<times> json) list"

text \<open>The exceptions the script can raise and does not catch.\<close>

datatype py_exc = ValueError | TypeError | OverflowError | AttributeError | KeyError

text \<open>Truth value of a Python object, as tested by \<open>if x:\<close>.\<close>

fun truthy :: "json \<Rightarrow> bool" where
  "truthy JNull = False"
| "truthy (JBool b) = b"
| "truthy (JInt n) = (n \<noteq> 0)"
| "truthy (JFloat (Finite q)) = (q \<noteq> 0)"
| "truthy (JFloat _) = True"
| "truthy (JString s) = (s \<noteq> [])"
| "truthy (JArray xs) = (xs \<noteq> [])"
| "truthy (JObject kvs) = (kvs \<noteq> [])"

text \<open>\<open>s.startswith(p)\<close> and the substring test \<open>p in s\<close> on strings.\<close>

definition startswith :: "string \<Rightarrow> string \<Rightarrow> bool" where
  "startswith s p = (take (length p) s = p)"

fun str_contains :: "string \<Rightarrow> string \<Rightarrow> bool" where
  "str_contains [] p = (p = [])"
| "str_contains (c # cs) p = (startswith (c # cs) p \<or> str_contains cs p)"

text \<open>\<open>key in obj\<close>: key membership on a dict, element membership on a list, substring
  test on a string, \<open>TypeError\<close> on everything else.\<close>

fun py_in :: "string \<Rightarrow> json \<Rightarrow> py_exc + bool" where
  "py_in key (JObject kvs) = Inr (key \<in> set (map fst kvs))"
| "py_in key (JArray xs) = Inr (JString key \<in> set xs)"
| "py_in key (JString s) = Inr (str_contains s key)"
| "py_in key _ = Inl TypeError"

text \<open>\<open>obj[key]\<close> with a string key: a dict looks the key up, anything else raises
  \<open>TypeError\<close>.\<close>

fun py_getitem :: "json \<Rightarrow> string \<Rightarrow> py_exc + json" where
  "py_getitem (JObject kvs) key = (case map_of kvs key of None \<Rightarrow> Inl KeyError | Some v \<Rightarrow> Inr v)"
| "py_getitem _ key = Inl TypeError"

text \<open>\<open>obj.get(key)\<close>: only a dict has the method; a missing key gives \<open>None\<close>.\<close>

definition dict_get :: "(string \<times> json) list \<Rightarrow> string \<Rightarrow> json" where
  "dict_get kvs key = (case map_of kvs key of None \<Rightarrow> JNull | Some v \<Rightarrow> v)"

fun py_get :: "json \<Rightarrow> string \<Rightarrow> py_exc + json" where
  "py_get (JObject kvs) key = Inr (dict_get kvs key)"
| "py_get _ key = Inl AttributeError"

subsection \<open>What the script prints\<close>

text \<open>One constructor per \<open>print\<close> call of the source, with the values it formats.\<close>

datatype stream = Out | Err

datatype message =
    StartingAnalysis
  | LogFileIs string
  | RpcUrlIs string
  | OutputFileIs string
  | BlankLine
  | Extracted nat string
  | ErrFileNotFound string
  | ErrReadingFile
  | NoHashesFound
  | FetchingReceipts
  | FetchingProgress nat nat string
  | RpcError string json
  | RequestError string
  | CheckMark
  | CrossMark
  | SavingResults string
  | SavedReceipts nat
  | ErrWritingOutput
  | SummaryHeader
  | TotalTransactions nat
  | Successful nat
  | Failed nat
  | GasStatsHeader
  | AverageGas real
  | MinimumGas int
  | MaximumGas int
  | TotalGas int
  | NoGasData

type_synonym event = "stream \<times> message"

subsection \<open>The log scanner: \<open>extract_tx_hashes\<close>\<close>

text \<open>What opening and reading the log file does: \<open>FileNotFoundError\<close>, any other
  exception, or the decoded text.\<close>

datatype read_outcome = FileNotFound | ReadFailure | Content string

text \<open>
  \<open>for line in f\<close> on a file opened in text mode: lines end at \<open>\n\<close>, \<open>\r\n\<close> or
  \<open>\r\<close>, each of them given to the program as \<open>\n\<close>; the last line may have no
  terminator. The flag says that the previous character was \<open>\r\<close>.
\<close>

fun text_lines :: "bool \<Rightarrow> string \<Rightarrow> string \<Rightarrow> string list" where
  "text_lines after_cr cur [] = (if cur = [] then [] else [cur])"
| "text_lines after_cr cur (c # cs) =
     (if c = CHR 0x0A then
        (if after_cr then text_lines False cur cs
         else (cur @ [CHR 0x0A]) # text_lines False [] cs)
      else if c = CHR 0x0D then (cur @ [CHR 0x0A]) # text_lines True [] cs
      else text_lines False (cur @ [c]) cs)"

text \<open>The character class \<open>[a-fA-F0-9]\<close>.\<close>

definition hexdigit :: "char \<Rightarrow> bool" where
  "hexdigit c = (c \<in> set ''abcdefABCDEF0123456789'')"

text \<open>
  The pattern \<open>tx_hash=(0x[a-fA-F0-9]{64})\<close> matched at the start of a string; the
  result is group 1.
\<close>

definition match_here :: "string \<Rightarrow> string option" where
  "match_here s =
     (if startswith s ''tx_hash=0x'' \<and> length (take 64 (drop 10 s)) = 64
         \<and> list_all hexdigit (take 64 (drop 10 s))
      then Some (take 66 (drop 8 s)) else None)"

text \<open>\<open>tx_hash_pattern.search(line)\<close>: the leftmost match, if any.\<close>

fun re_search :: "string \<Rightarrow> string option" where
  "re_search [] = None"
| "re_search (c # cs) =
     (case match_here (c # cs) of Some h \<Rightarrow> Some h | None \<Rightarrow> re_search cs)"

text \<open>The loop over the lines: one \<open>search\<close> per line, a match is appended.\<close>

fun scan_lines :: "string list \<Rightarrow> string list \<Rightarrow> string list" where
  "scan_lines [] tx_hashes = tx_hashes"
| "scan_lines (line # rest) tx_hashes =
     (case re_search line of
        Some tx_hash \<Rightarrow> scan_lines rest (tx_hashes @ [tx_hash])
      | None \<Rightarrow> scan_lines rest tx_hashes)"

text \<open>\<open>extract_tx_hashes\<close>: what it prints, and either the exit status of \<open>sys.exit\<close>
  or the list it returns.\<close>

fun extract_tx_hashes :: "string \<Rightarrow> read_outcome \<Rightarrow> event list \<times> (nat + string list)" where
  "extract_tx_hashes log_file_path FileNotFound = ([(Err, ErrFileNotFound log_file_path)], Inl 1)"
| "extract_tx_hashes log_file_path ReadFailure = ([(Err, ErrReadingFile)], Inl 1)"
| "extract_tx_hashes log_file_path (Content text) =
     (let tx_hashes = scan_lines (text_lines False [] text) []
      in ([(Out, Extracted (length tx_hashes) log_file_path)], Inr tx_hashes))"

subsection \<open>Occurrences of a hash in a line\<close>

text \<open>
  A well-formed occurrence at position \<open>i\<close> of a line: the substring \<open>tx_hash=\<close>,
  immediately followed by \<open>0x\<close> and 64 hexadecimal characters. \<open>occurrences\<close> lists
  the hashes of all of them, from left to right.
\<close>

definition well_formed_at :: "string \<Rightarrow> nat \<Rightarrow> bool" where
  "well_formed_at line i =
     (take 8 (drop i line) = ''tx_hash='' \<and> take 2 (drop (i + 8) line) = ''0x''
      \<and> length (take 64 (drop (i + 10) line)) = 64
      \<and> list_all hexdigit (take 64 (drop (i + 10) line)))"

definition hash_at :: "string \<Rightarrow> nat \<Rightarrow> string" where
  "hash_at line i = take 66 (drop (i + 8) line)"

definition occurrences :: "string \<Rightarrow> string list" where
  "occurrences line = map (hash_at line) (filter (well_formed_at line) [0..<length line])"

subsection \<open>The receipt fetcher: \<open>fetch_transaction_receipt\<close>\<close>

text \<open>
  What one \<open>requests.post\<close>, \<open>raise_for_status\<close> and \<open>response.json()\<close> do: raise a
  \<open>RequestException\<close> (connection error, timeout, HTTP error status, body that is
  not JSON), or give the decoded body.
\<close>

datatype http_outcome = RequestException | Response json

text \<open>What the function prints, and the exception it lets through or the value it
  returns (\<open>None\<close> is \<open>JNull\<close>).\<close>

fun fetch_transaction_receipt :: "string \<Rightarrow> http_outcome \<Rightarrow> event list \<times> (py_exc + json)" where
  "fetch_transaction_receipt tx_hash RequestException = ([(Err, RequestError tx_hash)], Inr JNull)"
| "fetch_transaction_receipt tx_hash (Response result) =
     (case py_in ''error'' result of
        Inl ex \<Rightarrow> ([], Inl ex)
      | Inr True \<Rightarrow>
          (case py_getitem result ''error'' of
             Inl ex \<Rightarrow> ([], Inl ex)
           | Inr err \<Rightarrow> ([(Err, RpcError tx_hash err)], Inr JNull))
      | Inr False \<Rightarrow> ([], py_get result ''result''))"

subsection \<open>The fetch loop of \<open>main\<close>\<close>

text \<open>The variables of the loop, with what has been printed and the requests issued
  so far.\<close>

record fetch_state =
  receipts :: "json list"
  successful :: nat
  failed :: nat
  printed :: "event list"
  requests :: "string list"

text \<open>
  One iteration for the \<open>i\<close>-th hash (counted from 1); \<open>rpc i tx_hash\<close> is what the
  endpoint does with the \<open>i\<close>-th request. An exception that \<open>fetch_transaction_receipt\<close>
  lets through ends the loop.
\<close>

definition fetch_step ::
  "(nat \<Rightarrow> string \<Rightarrow> http_outcome) \<Rightarrow> nat \<Rightarrow> nat \<Rightarrow> string \<Rightarrow> fetch_state
     \<Rightarrow> (py_exc \<times> fetch_state) + fetch_state" where
  "fetch_step rpc n_hashes i tx_hash st =
     (let st1 = st\<lparr>printed := printed st @ [(Out, FetchingProgress i n_hashes tx_hash)],
                    requests := requests st @ [tx_hash]\<rparr>
      in case fetch_transaction_receipt tx_hash (rpc i tx_hash) of
           (evs, Inl ex) \<Rightarrow> Inl (ex, st1\<lparr>printed := printed st1 @ evs\<rparr>)
         | (evs, Inr receipt) \<Rightarrow>
             if truthy receipt then
               Inr (st1\<lparr>receipts := receipts st1
                            @ [JObject [(''tx_hash'', JString tx_hash), (''receipt'', receipt)]],
                         successful := successful st1 + 1,
                         printed := printed st1 @ evs @ [(Out, CheckMark)]\<rparr>)
             else
               Inr (st1\<lparr>failed := failed st1 + 1,
                         printed := printed st1 @ evs @ [(Out, CrossMark)]\<rparr>))"

fun fetch_loop ::
  "(nat \<Rightarrow> string \<Rightarrow> http_outcome) \<Rightarrow> nat \<Rightarrow> nat \<Rightarrow> string list \<Rightarrow> fetch_state
     \<Rightarrow> (py_exc \<times> fetch_state) + fetch_state" where
  "fetch_loop rpc n_hashes i [] st = Inr st"
| "fetch_loop rpc n_hashes i (tx_hash # rest) st =
     (case fetch_step rpc n_hashes i tx_hash st of
        Inl x \<Rightarrow> Inl x
      | Inr st' \<Rightarrow> fetch_loop rpc n_hashes (Suc i) rest st')"

subsection \<open>Converting \<open>gasUsed\<close>\<close>

text \<open>White space as \<open>int()\<close> strips it, and the value of a digit or letter.\<close>

definition py_isspace :: "char \<Rightarrow> bool" where
  "py_isspace c = (c \<in> set [CHR 0x09, CHR 0x0A, CHR 0x0B, CHR 0x0C, CHR 0x0D,
                              CHR 0x1C, CHR 0x1D, CHR 0x1E, CHR 0x1F, CHR 0x20])"

definition digit_value :: "char \<Rightarrow> nat option" where
  "digit_value c =
     (let n = (of_char c :: nat)
      in if 48 \<le> n \<and> n \<le> 57 then Some (n - 48)
         else if 97 \<le> n \<and> n \<le> 122 then Some (n - 87)
         else if 65 \<le> n \<and> n \<le> 90 then Some (n - 55)
         else None)"

text \<open>
  The digits of a number in the given base, with single underscores allowed between
  digits: the value read, the number of digits and the rest of the string; \<open>None\<close>
  for a doubled or trailing underscore.
\<close>

fun scan_digits :: "nat \<Rightarrow> bool \<Rightarrow> int \<Rightarrow> nat \<Rightarrow> string \<Rightarrow> (int \<times> nat \<times> string) option" where
  "scan_digits base prev_us acc n [] = (if prev_us then None else Some (acc, n, []))"
| "scan_digits base prev_us acc n (c # cs) =
     (if c = CHR ''_'' then (if prev_us then None else scan_digits base True acc n cs)
      else case digit_value c of
             Some d \<Rightarrow>
               if d < base then scan_digits base False (acc * int base + int d) (Suc n) cs
               else if prev_us then None else Some (acc, n, c # cs)
           | None \<Rightarrow> if prev_us then None else Some (acc, n, c # cs))"

text \<open>
  \<open>int(s)\<close> (base 10) and \<open>int(s, 16)\<close> on a string: white space around the number,
  an optional sign, for base 16 an optional prefix \<open>0x\<close> that one underscore may
  follow, then at least one digit. Anything else raises \<open>ValueError\<close>. The limit
  that recent Python versions put on the number of decimal digits (4300 by default)
  is not modelled.
\<close>

definition int_of_str :: "nat \<Rightarrow> string \<Rightarrow> py_exc + int" where
  "int_of_str base s =
     (let s1 = dropWhile py_isspace s;
          neg = startswith s1 ''-'';
          s2 = (if startswith s1 ''+'' \<or> startswith s1 ''-'' then drop 1 s1 else s1);
          s3 = (if base = 16 \<and> (startswith s2 ''0x'' \<or> startswith s2 ''0X'')
                then (if startswith (drop 2 s2) ''_'' then drop 3 s2 else drop 2 s2)
                else s2)
      in if startswith s3 ''_'' then Inl ValueError
         else case scan_digits base False 0 0 s3 of
                None \<Rightarrow> Inl ValueError
              | Some (v, n, rest) \<Rightarrow>
                  if n = 0 \<or> dropWhile py_isspace rest \<noteq> [] then Inl ValueError
                  else Inr (if neg then - v else v))"

text \<open>\<open>int(x)\<close> on any value: a float is truncated towards zero.\<close>

fun py_int :: "json \<Rightarrow> py_exc + int" where
  "py_int (JString s) = int_of_str 10 s"
| "py_int (JInt n) = Inr n"
| "py_int (JBool b) = Inr (if b then 1 else 0)"
| "py_int (JFloat (Finite q)) = Inr (if 0 \<le> q then \<lfloor>q\<rfloor> else \<lceil>q\<rceil>)"
| "py_int (JFloat NaN) = Inl ValueError"
| "py_int (JFloat _) = Inl OverflowError"
| "py_int _ = Inl TypeError"

text \<open>Lines 153 to 156: a string starting with \<open>0x\<close> is read in base 16, anything
  else goes to \<open>int()\<close>.\<close>

fun convert_gas_used :: "json \<Rightarrow> py_exc + int" where
  "convert_gas_used (JString s) =
     (if startswith s ''0x'' then int_of_str 16 s else py_int (JString s))"
| "convert_gas_used gas_used_hex = py_int gas_used_hex"

subsection \<open>The gas statistics of \<open>main\<close>\<close>

text \<open>One iteration of the loop over \<open>receipts\<close>: the value to append, \<open>None\<close> when
  the item is skipped, or the exception raised.\<close>

definition gas_step :: "json \<Rightarrow> py_exc + int option" where
  "gas_step item =
     (case py_get item ''receipt'' of
        Inl ex \<Rightarrow> Inl ex
      | Inr receipt \<Rightarrow>
          if \<not> truthy receipt then Inr None
          else case py_get receipt ''gasUsed'' of
                 Inl ex \<Rightarrow> Inl ex
               | Inr g \<Rightarrow>
                   if \<not> truthy g then Inr None
                   else case py_getitem receipt ''gasUsed'' of
                          Inl ex \<Rightarrow> Inl ex
                        | Inr gas_used_hex \<Rightarrow>
                            (case convert_gas_used gas_used_hex of
                               Inl ex \<Rightarrow> Inl ex
                             | Inr gas_used \<Rightarrow> Inr (Some gas_used)))"

fun collect_gas_used :: "json list \<Rightarrow> int list \<Rightarrow> py_exc + int list" where
  "collect_gas_used [] gas_used_values = Inr gas_used_values"
| "collect_gas_used (item # rest) gas_used_values =
     (case gas_step item of
        Inl ex \<Rightarrow> Inl ex
      | Inr None \<Rightarrow> collect_gas_used rest gas_used_values
      | Inr (Some gas_used) \<Rightarrow> collect_gas_used rest (gas_used_values @ [gas_used]))"

text \<open>\<open>sum\<close>, \<open>min\<close> and \<open>max\<close> on a list of integers, the last two on a list given
  as its first element and the rest.\<close>

definition py_sum :: "int list \<Rightarrow> int" where
  "py_sum xs = fold (\<lambda>x s. s + x) xs 0"

definition py_min :: "int \<Rightarrow> int list \<Rightarrow> int" where
  "py_min x xs = fold (\<lambda>v m. if v < m then v else m) xs x"

definition py_max :: "int \<Rightarrow> int list \<Rightarrow> int" where
  "py_max x xs = fold (\<lambda>v m. if v > m then v else m) xs x"

text \<open>
  Lines 166 to 178. The average is the exact quotient here; Python rounds it to the
  nearest float (and raises \<open>OverflowError\<close> when the quotient exceeds the range of
  floats).
\<close>

fun gas_report :: "int list \<Rightarrow> event list" where
  "gas_report [] = [(Out, NoGasData)]"
| "gas_report (v # rest) =
     (let avg_gas = real_of_int (py_sum (v # rest)) / real (length (v # rest));
          min_gas = py_min v rest;
          max_gas = py_max v rest;
          total_gas = py_sum (v # rest)
      in [(Out, GasStatsHeader), (Out, AverageGas avg_gas), (Out, MinimumGas min_gas),
          (Out, MaximumGas max_gas), (Out, TotalGas total_gas)])"

subsection \<open>\<open>main\<close>\<close>

record args =
  log_file :: string
  rpc_url :: string
  output_path :: string

text \<open>What writing the output file does: \<open>open\<close> raises, \<open>json.dump\<close> raises after
  the file has been opened for writing, or both succeed.\<close>

datatype write_outcome = OpenFails | DumpFails | WriteOk

record env =
  log_read :: read_outcome
  endpoint :: "nat \<Rightarrow> string \<Rightarrow> http_outcome"
  output_write :: write_outcome

text \<open>What a run does to the output file: nothing, open and truncate it without
  completing the dump, or write the dump of a value.\<close>

datatype file_effect = Untouched | Damaged | Written json

text \<open>A finished run. An uncaught exception ends the process with status 1.\<close>

record run =
  exit_status :: nat
  uncaught :: "py_exc option"
  console :: "event list"
  rpc_requests :: "string list"
  output_file :: file_effect

text \<open>Lines 136 to 178: saving, gas statistics and summary.\<close>

definition save_and_summarise :: "args \<Rightarrow> write_outcome \<Rightarrow> nat \<Rightarrow> fetch_state \<Rightarrow> run" where
  "save_and_summarise a w n_hashes st =
     (let p1 = printed st @ [(Out, SavingResults (output_path a))]
      in case w of
           OpenFails \<Rightarrow>
             \<lparr>exit_status = 1, uncaught = None, console = p1 @ [(Err, ErrWritingOutput)],
              rpc_requests = requests st, output_file = Untouched\<rparr>
         | DumpFails \<Rightarrow>
             \<lparr>exit_status = 1, uncaught = None, console = p1 @ [(Err, ErrWritingOutput)],
              rpc_requests = requests st, output_file = Damaged\<rparr>
         | WriteOk \<Rightarrow>
             (let p2 = p1 @ [(Out, SavedReceipts (length (receipts st)))]
              in case collect_gas_used (receipts st) [] of
                   Inl ex \<Rightarrow>
                     \<lparr>exit_status = 1, uncaught = Some ex, console = p2,
                      rpc_requests = requests st,
                      output_file = Written (JArray (receipts st))\<rparr>
                 | Inr gas_used_values \<Rightarrow>
                     \<lparr>exit_status = 0, uncaught = None,
                      console = p2 @ [(Out, SummaryHeader), (Out, TotalTransactions n_hashes),
                                      (Out, Successful (successful st)), (Out, Failed (failed st)),
                                      (Out, OutputFileIs (output_path a))]
                                   @ gas_report gas_used_values,
                      rpc_requests = requests st,
                      output_file = Written (JArray (receipts st))\<rparr>))"

definition main :: "args \<Rightarrow> env \<Rightarrow> run" where
  "main a e =
     (let p0 = [(Out, StartingAnalysis), (Out, LogFileIs (log_file a)), (Out, RpcUrlIs (rpc_url a)),
                (Out, OutputFileIs (output_path a)), (Out, BlankLine)]
      in case extract_tx_hashes (log_file a) (log_read e) of
           (evs, Inl code) \<Rightarrow>
             \<lparr>exit_status = code, uncaught = None, console = p0 @ evs,
              rpc_requests = [], output_file = Untouched\<rparr>
         | (evs, Inr tx_hashes) \<Rightarrow>
             if tx_hashes = [] then
               \<lparr>exit_status = 0, uncaught = None, console = p0 @ evs @ [(Out, NoHashesFound)],
                rpc_requests = [], output_file = Untouched\<rparr>
             else
               (case fetch_loop (endpoint e) (length tx_hashes) 1 tx_hashes
                       \<lparr>receipts = [], successful = 0, failed = 0,
                        printed = p0 @ evs @ [(Out, FetchingReceipts)], requests = []\<rparr> of
                  Inl (ex, st) \<Rightarrow>
                    \<lparr>exit_status = 1, uncaught = Some ex, console = printed st,
                     rpc_requests = requests st, output_file = Untouched\<rparr>
                | Inr st \<Rightarrow> save_and_summarise a (output_write e) (length tx_hashes) st))"

subsection \<open>Describing a run\<close>

text \<open>
  What the calls of \<open>fetch_transaction_receipt\<close> give, request by request: the hash
  with the exception raised or the value returned. The \<open>i\<close>-th hash is sent with the
  \<open>i\<close>-th request.
\<close>

fun outcomes ::
  "(nat \<Rightarrow> string \<Rightarrow> http_outcome) \<Rightarrow> nat \<Rightarrow> string list \<Rightarrow> (string \<times> (py_exc + json)) list" where
  "outcomes rpc i [] = []"
| "outcomes rpc i (tx_hash # rest) =
     (tx_hash, snd (fetch_transaction_receipt tx_hash (rpc i tx_hash))) # outcomes rpc (Suc i) rest"

text \<open>A call returned (it did not raise); it returned and the loop counts it as
  successful; it returned and the loop counts it as failed.\<close>

fun fetch_returned :: "string \<times> (py_exc + json) \<Rightarrow> bool" where
  "fetch_returned (tx_hash, Inr receipt) = True"
| "fetch_returned (tx_hash, Inl ex) = False"

fun fetch_succeeded :: "string \<times> (py_exc + json) \<Rightarrow> bool" where
  "fetch_succeeded (tx_hash, Inr receipt) = truthy receipt"
| "fetch_succeeded (tx_hash, Inl ex) = False"

fun fetch_failed :: "string \<times> (py_exc + json) \<Rightarrow> bool" where
  "fetch_failed (tx_hash, Inr receipt) = (\<not> truthy receipt)"
| "fetch_failed (tx_hash, Inl ex) = False"

text \<open>The record that line 126 builds from a hash and its receipt.\<close>

fun receipt_record :: "string \<times> (py_exc + json) \<Rightarrow> json" where
  "receipt_record (tx_hash, Inr receipt) =
     JObject [(''tx_hash'', JString tx_hash), (''receipt'', receipt)]"
| "receipt_record (tx_hash, Inl ex) = JNull"

subsection \<open>The specification's reading of success and of inclusion\<close>

text \<open>
  The specification's success criterion for a response: it is an object without an
  \<open>error\<close> field whose \<open>result\<close> field is an object, empty or not.
\<close>

fun is_object :: "json \<Rightarrow> bool" where
  "is_object (JObject kvs) = True"
| "is_object _ = False"

fun claimed_successful :: "json \<Rightarrow> bool" where
  "claimed_successful (JObject kvs) =
     (''error'' \<notin> set (map fst kvs) \<and> is_object (dict_get kvs ''result''))"
| "claimed_successful _ = False"


subsection \<open>Sample inputs\<close>

definition hash_a :: string where
  "hash_a = ''0x'' @ replicate 64 CHR ''a''"

definition hash_b :: string where
  "hash_b = ''0x'' @ replicate 64 CHR ''b''"

definition hash_c :: string where
  "hash_c = ''0x'' @ replicate 64 CHR ''c''"

definition sample_args :: args where
  "sample_args = \<lparr>log_file = ''dex_spammer.log'', rpc_url = ''http://127.0.0.1:8545'',
                  output_path = ''gas_analyze.json''\<rparr>"

text \<open>Three log lines with one hash each, and a line without a hash.\<close>

definition sample_log :: string where
  "sample_log =
     ''INFO Sent tx with hash. nonce=1 tx_hash='' @ hash_a @ [CHR 0x0A]
     @ ''INFO Sent tx with hash. nonce=2 tx_hash='' @ hash_b @ [CHR 0x0A]
     @ ''INFO spammer started'' @ [CHR 0x0A]
     @ ''INFO Sent tx with hash. nonce=3 tx_hash='' @ hash_c @ [CHR 0x0A]"

text \<open>A JSON-RPC response with the given result.\<close>

definition response_with :: "json \<Rightarrow> http_outcome" where
  "response_with v = Response (JObject [(''jsonrpc'', JString ''2.0''), (''id'', JInt 1), (''result'', v)])"

text \<open>An endpoint that knows the receipts of \<open>hash_a\<close> (gas \<open>0x5208\<close>), \<open>hash_b\<close> (no
  \<open>gasUsed\<close>) and \<open>hash_c\<close> (gas \<open>0xc350\<close>).\<close>

definition sample_endpoint :: "nat \<Rightarrow> string \<Rightarrow> http_outcome" where
  "sample_endpoint i tx_hash =
     (if tx_hash = hash_a then
        response_with (JObject [(''status'', JString ''0x1''), (''gasUsed'', JString ''0x5208'')])
      else if tx_hash = hash_b then
        response_with (JObject [(''status'', JString ''0x1'')])
      else if tx_hash = hash_c then
        response_with (JObject [(''status'', JString ''0x1''), (''gasUsed'', JString ''0xc350'')])
      else response_with JNull)"

definition sample_env :: env where
  "sample_env = \<lparr>log_read = Content sample_log, endpoint = sample_endpoint, output_write = WriteOk\<rparr>"

text \<open>Endpoints that answer every request the same way, and one where only the second
  request is answered with a receipt.\<close>

definition constant_endpoint :: "http_outcome \<Rightarrow> nat \<Rightarrow> string \<Rightarrow> http_outcome" where
  "constant_endpoint r i tx_hash = r"

definition second_only_endpoint :: "nat \<Rightarrow> string \<Rightarrow> http_outcome" where
  "second_only_endpoint i tx_hash =
     (if i = 2 then response_with (JObject [(''gasUsed'', JString ''0x5208'')])
      else if i = 1 then Response (JObject [(''error'', JObject [(''code'', JInt (- 32000))])])
      else RequestException)"

definition empty_state :: fetch_state where
  "empty_state = \<lparr>receipts = [], successful = 0, failed = 0, printed = [], requests = []\<rparr>"

section \<open>Properties\<close>

subsection \<open>The log scanner\<close>

lemma scan_lines_concat:
  "scan_lines ls acc
     = acc @ concat (map (\<lambda>l. case re_search l of None \<Rightarrow> [] | Some h \<Rightarrow> [h]) ls)"
  by (induction ls arbitrary: acc) (auto split: option.splits)

lemma take_10_split:
  "(take 10 s = ''tx_hash=0x'') = (take 8 s = ''tx_hash='' \<and> take 2 (drop 8 s) = ''0x'')"
proof (cases "8 \<le> length s")
  case True
  have t10: "take 10 s = take 8 s @ take 2 (drop 8 s)"
    using take_add [of 8 2 s] by simp
  have lit: "''tx_hash=0x'' = ''tx_hash='' @ ''0x''"
    by simp
  have eq: "(take 8 s @ take 2 (drop 8 s) = ''tx_hash='' @ ''0x'')
      = (take 8 s = ''tx_hash='' \<and> take 2 (drop 8 s) = ''0x'')"
    by (rule append_eq_append_conv) (use True in simp)
  show ?thesis
    by (simp only: t10 lit eq)
next
  case False
  have "take 10 s \<noteq> ''tx_hash=0x''"
  proof
    assume "take 10 s = ''tx_hash=0x''"
    then have "length (take 10 s) = length ''tx_hash=0x''"
      by (rule arg_cong)
    with False show False by simp
  qed
  moreover have "take 8 s \<noteq> ''tx_hash=''"
  proof
    assume "take 8 s = ''tx_hash=''"
    then have "length (take 8 s) = length ''tx_hash=''"
      by (rule arg_cong)
    with False show False by simp
  qed
  ultimately show ?thesis
    by simp
qed

lemma match_here_well_formed:
  "match_here s = (if well_formed_at s 0 then Some (hash_at s 0) else None)"
proof -
  have len: "length ''tx_hash=0x'' = 10" by simp
  show ?thesis
    unfolding match_here_def well_formed_at_def hash_at_def startswith_def len take_10_split
    by simp
qed

lemma drop_Suc_plus: "drop (Suc i + n) (c # cs) = drop (i + n) cs"
  by simp

lemma well_formed_at_Suc: "well_formed_at (c # cs) (Suc i) = well_formed_at cs i"
  unfolding well_formed_at_def drop_Suc_plus drop_Suc_Cons ..

lemma hash_at_Suc: "hash_at (c # cs) (Suc i) = hash_at cs i"
  unfolding hash_at_def drop_Suc_plus ..

lemma occurrences_Nil: "occurrences [] = []"
  by (simp add: occurrences_def)

lemma occurrences_Cons:
  "occurrences (c # cs) =
     (if well_formed_at (c # cs) 0 then [hash_at (c # cs) 0] else []) @ occurrences cs"
proof -
  have "[0..<length (c # cs)] = 0 # map Suc [0..<length cs]"
    by (simp add: upt_conv_Cons map_Suc_upt del: upt_Suc)
  then show ?thesis
    by (simp add: occurrences_def filter_map o_def well_formed_at_Suc hash_at_Suc del: upt_Suc)
qed

text \<open>\<open>search\<close> finds the first well-formed occurrence of the line, and only that one.\<close>

lemma re_search_first_occurrence:
  "(case re_search l of None \<Rightarrow> [] | Some h \<Rightarrow> [h]) = take 1 (occurrences l)"
  by (induction l) (simp_all add: occurrences_Nil occurrences_Cons match_here_well_formed)

text \<open>
  C1, as stated: extraction yields every well-formed occurrence of the log, in file
  order, also when several stand on one line. This fails on a line with two
  well-formed occurrences: \<open>search\<close> returns the first match of a line only, so the
  second hash of the line is not extracted.
\<close>

theorem extract_all_occurrences_counterexample:
  "snd (extract_tx_hashes ''spam.log''
          (Content ''tx_hash=0xaaaaaaaaaaaaaaaaaaaaaaaaaaaaaaaaaaaaaaaaaaaaaaaaaaaaaaaaaaaaaaaa tx_hash=0xbbbbbbbbbbbbbbbbbbbbbbbbbbbbbbbbbbbbbbbbbbbbbbbbbbbbbbbbbbbbbbbb''))
   \<noteq> Inr (concat (map occurrences
          (text_lines False [] ''tx_hash=0xaaaaaaaaaaaaaaaaaaaaaaaaaaaaaaaaaaaaaaaaaaaaaaaaaaaaaaaaaaaaaaaa tx_hash=0xbbbbbbbbbbbbbbbbbbbbbbbbbbbbbbbbbbbbbbbbbbbbbbbbbbbbbbbbbbbbbbbb'')))"
  by code_simp

text \<open>
  C1, amended: extraction yields, line by line in file order, the first well-formed
  occurrence of each line that has one (\<open>tx_hash=\<close> immediately followed by \<open>0x\<close> and
  64 hexadecimal characters); lines without a well-formed occurrence contribute
  nothing, malformed occurrences are ignored, and nothing is deduplicated.
\<close>

theorem extract_first_occurrence_per_line:
  "snd (extract_tx_hashes log_file_path (Content text))
   = Inr (concat (map (\<lambda>line. take 1 (occurrences line)) (text_lines False [] text)))"
  by (simp add: Let_def scan_lines_concat re_search_first_occurrence)

theorem extract_first_occurrence_per_line_witness:
  "snd (extract_tx_hashes ''spam.log''
          (Content (''nonce=1 tx_hash=0xaaaaaaaaaaaaaaaaaaaaaaaaaaaaaaaaaaaaaaaaaaaaaaaaaaaaaaaaaaaaaaaa tx_hash=0xbbbbbbbbbbbbbbbbbbbbbbbbbbbbbbbbbbbbbbbbbbbbbbbbbbbbbbbbbbbbbbbb'' @ [CHR 0x0A]
                    @ ''nonce=2 tx_hash=0xabc'' @ [CHR 0x0A]
                    @ ''nonce=3 tx_hash=0xaaaaaaaaaaaaaaaaaaaaaaaaaaaaaaaaaaaaaaaaaaaaaaaaaaaaaaaaaaaaaaaa'' @ [CHR 0x0A])))
   = Inr [''0xaaaaaaaaaaaaaaaaaaaaaaaaaaaaaaaaaaaaaaaaaaaaaaaaaaaaaaaaaaaaaaaa'', ''0xaaaaaaaaaaaaaaaaaaaaaaaaaaaaaaaaaaaaaaaaaaaaaaaaaaaaaaaaaaaaaaaa'']"
proof -
  have "concat (map (\<lambda>line. take 1 (occurrences line))
          (text_lines False [] (''nonce=1 tx_hash=0xaaaaaaaaaaaaaaaaaaaaaaaaaaaaaaaaaaaaaaaaaaaaaaaaaaaaaaaaaaaaaaaa tx_hash=0xbbbbbbbbbbbbbbbbbbbbbbbbbbbbbbbbbbbbbbbbbbbbbbbbbbbbbbbbbbbbbbbb'' @ [CHR 0x0A]
                    @ ''nonce=2 tx_hash=0xabc'' @ [CHR 0x0A]
                    @ ''nonce=3 tx_hash=0xaaaaaaaaaaaaaaaaaaaaaaaaaaaaaaaaaaaaaaaaaaaaaaaaaaaaaaaaaaaaaaaa'' @ [CHR 0x0A])))
        = [''0xaaaaaaaaaaaaaaaaaaaaaaaaaaaaaaaaaaaaaaaaaaaaaaaaaaaaaaaaaaaaaaaa'', ''0xaaaaaaaaaaaaaaaaaaaaaaaaaaaaaaaaaaaaaaaaaaaaaaaaaaaaaaaaaaaaaaaa'']"
    by code_simp
  then show ?thesis
    by (simp only: extract_first_occurrence_per_line)
qed

text \<open>The pattern does not look at what follows the 64 digits: an occurrence with 65
  hexadecimal digits is matched, and its first 64 digits are the hash.\<close>

lemma extract_over_long_hash:
  "snd (extract_tx_hashes ''spam.log'' (Content ''tx_hash=0xaaaaaaaaaaaaaaaaaaaaaaaaaaaaaaaaaaaaaaaaaaaaaaaaaaaaaaaaaaaaaaaaf'')) = Inr [''0xaaaaaaaaaaaaaaaaaaaaaaaaaaaaaaaaaaaaaaaaaaaaaaaaaaaaaaaaaaaaaaaa'']"
  by code_simp

subsection \<open>The fetch loop\<close>

lemma fetch_events_Err:
  "(s, m) \<in> set (fst (fetch_transaction_receipt h outcome)) \<Longrightarrow> s = Err"
  by (cases outcome) (auto split: sum.splits bool.splits)

lemma fetch_step_Inr:
  assumes "snd (fetch_transaction_receipt h (rpc i h)) = Inr r"
  shows "\<exists>st'. fetch_step rpc n i h st = Inr st'
     \<and> receipts st' = receipts st @ (if truthy r then [receipt_record (h, Inr r)] else [])
     \<and> successful st' = successful st + (if truthy r then 1 else 0)
     \<and> failed st' = failed st + (if truthy r then 0 else 1)
     \<and> requests st' = requests st @ [h]"
  using assms
  by (cases "fetch_transaction_receipt h (rpc i h)") (auto simp: fetch_step_def Let_def)

lemma fetch_step_Inl:
  assumes "snd (fetch_transaction_receipt h (rpc i h)) = Inl ex"
  shows "\<exists>st'. fetch_step rpc n i h st = Inl (ex, st')"
  using assms
  by (cases "fetch_transaction_receipt h (rpc i h)") (auto simp: fetch_step_def Let_def)

lemma fetch_step_no_summary:
  assumes "(Out, SummaryHeader) \<notin> set (printed st)"
  shows "case fetch_step rpc n i h st of
           Inl (ex, st') \<Rightarrow> (Out, SummaryHeader) \<notin> set (printed st')
         | Inr st' \<Rightarrow> (Out, SummaryHeader) \<notin> set (printed st')"
proof -
  obtain evs res where f: "fetch_transaction_receipt h (rpc i h) = (evs, res)"
    by (cases "fetch_transaction_receipt h (rpc i h)")
  have "(Out, SummaryHeader) \<notin> set evs"
    using fetch_events_Err [of Out SummaryHeader h "rpc i h"] f by auto
  with assms f show ?thesis
    by (cases res) (auto simp: fetch_step_def Let_def)
qed

lemma fetch_loop_no_summary:
  assumes "(Out, SummaryHeader) \<notin> set (printed st)"
  shows "case fetch_loop rpc n i hs st of
           Inl (ex, st') \<Rightarrow> (Out, SummaryHeader) \<notin> set (printed st')
         | Inr st' \<Rightarrow> (Out, SummaryHeader) \<notin> set (printed st')"
  using assms
proof (induction hs arbitrary: i st)
  case Nil
  then show ?case by simp
next
  case (Cons h hs)
  show ?case
  proof (cases "fetch_step rpc n i h st")
    case (Inl x)
    with fetch_step_no_summary [OF Cons.prems, of rpc n i h] show ?thesis
      by simp
  next
    case (Inr st1)
    with fetch_step_no_summary [OF Cons.prems, of rpc n i h]
    have "(Out, SummaryHeader) \<notin> set (printed st1)"
      by simp
    from Cons.IH [OF this, of "Suc i"] Inr show ?thesis
      by simp
  qed
qed

lemma fetch_loop_returns:
  assumes "list_all fetch_returned (outcomes rpc i hs)"
  shows "\<exists>st'. fetch_loop rpc n i hs st = Inr st'
     \<and> receipts st' = receipts st @ map receipt_record (filter fetch_succeeded (outcomes rpc i hs))
     \<and> successful st' = successful st + length (filter fetch_succeeded (outcomes rpc i hs))
     \<and> failed st' = failed st + length (filter fetch_failed (outcomes rpc i hs))
     \<and> requests st' = requests st @ hs"
  using assms
proof (induction hs arbitrary: i st)
  case Nil
  then show ?case by simp
next
  case (Cons h hs)
  from Cons.prems obtain r where r: "snd (fetch_transaction_receipt h (rpc i h)) = Inr r"
    by (cases "snd (fetch_transaction_receipt h (rpc i h))") auto
  from fetch_step_Inr [of h rpc i r n st] r obtain st1 where
    st1: "fetch_step rpc n i h st = Inr st1"
      "receipts st1 = receipts st @ (if truthy r then [receipt_record (h, Inr r)] else [])"
      "successful st1 = successful st + (if truthy r then 1 else 0)"
      "failed st1 = failed st + (if truthy r then 0 else 1)"
      "requests st1 = requests st @ [h]"
    by blast
  from Cons.prems have "list_all fetch_returned (outcomes rpc (Suc i) hs)"
    by simp
  from Cons.IH [OF this, of st1] obtain st' where
    st': "fetch_loop rpc n (Suc i) hs st1 = Inr st'"
      "receipts st' = receipts st1 @ map receipt_record (filter fetch_succeeded (outcomes rpc (Suc i) hs))"
      "successful st' = successful st1 + length (filter fetch_succeeded (outcomes rpc (Suc i) hs))"
      "failed st' = failed st1 + length (filter fetch_failed (outcomes rpc (Suc i) hs))"
      "requests st' = requests st1 @ hs"
    by blast
  show ?case
    using st1 st' r by simp
qed

lemma fetch_loop_Inr_returned:
  assumes "fetch_loop rpc n i hs st = Inr st'"
  shows "list_all fetch_returned (outcomes rpc i hs)"
  using assms
proof (induction hs arbitrary: i st)
  case Nil
  then show ?case by simp
next
  case (Cons h hs)
  show ?case
  proof (cases "snd (fetch_transaction_receipt h (rpc i h))")
    case (Inl ex)
    from fetch_step_Inl [of h rpc i ex n st] Inl Cons.prems show ?thesis by auto
  next
    case (Inr r)
    from fetch_step_Inr [of h rpc i r n st] Inr obtain st1 where "fetch_step rpc n i h st = Inr st1"
      by blast
    with Cons.prems have "fetch_loop rpc n (Suc i) hs st1 = Inr st'"
      by simp
    from Cons.IH [OF this] Inr show ?thesis by simp
  qed
qed

subsection \<open>The phases of \<open>main\<close>\<close>

lemma main_exit:
  assumes "snd (extract_tx_hashes (log_file a) (log_read e)) = Inl code"
  shows "main a e = \<lparr>exit_status = code, uncaught = None,
           console = [(Out, StartingAnalysis), (Out, LogFileIs (log_file a)), (Out, RpcUrlIs (rpc_url a)),
                      (Out, OutputFileIs (output_path a)), (Out, BlankLine)]
                     @ fst (extract_tx_hashes (log_file a) (log_read e)),
           rpc_requests = [], output_file = Untouched\<rparr>"
  using assms
  by (cases "extract_tx_hashes (log_file a) (log_read e)") (simp add: main_def)

lemma main_no_hashes:
  assumes "snd (extract_tx_hashes (log_file a) (log_read e)) = Inr []"
  shows "main a e = \<lparr>exit_status = 0, uncaught = None,
           console = [(Out, StartingAnalysis), (Out, LogFileIs (log_file a)), (Out, RpcUrlIs (rpc_url a)),
                      (Out, OutputFileIs (output_path a)), (Out, BlankLine)]
                     @ fst (extract_tx_hashes (log_file a) (log_read e)) @ [(Out, NoHashesFound)],
           rpc_requests = [], output_file = Untouched\<rparr>"
  using assms
  by (cases "extract_tx_hashes (log_file a) (log_read e)") (simp add: main_def)

lemma extract_no_summary:
  "(Out, SummaryHeader) \<notin> set (fst (extract_tx_hashes p r))"
  by (cases r) (auto simp: Let_def)

lemma main_saved:
  assumes "snd (extract_tx_hashes (log_file a) (log_read e)) = Inr hs" and "hs \<noteq> []"
    and "list_all fetch_returned (outcomes (endpoint e) 1 hs)"
  shows "\<exists>st. main a e = save_and_summarise a (output_write e) (length hs) st
      \<and> receipts st = map receipt_record (filter fetch_succeeded (outcomes (endpoint e) 1 hs))
      \<and> successful st = length (filter fetch_succeeded (outcomes (endpoint e) 1 hs))
      \<and> failed st = length (filter fetch_failed (outcomes (endpoint e) 1 hs))
      \<and> requests st = hs
      \<and> (Out, SummaryHeader) \<notin> set (printed st)"
proof -
  obtain evs where ex: "extract_tx_hashes (log_file a) (log_read e) = (evs, Inr hs)"
    using assms(1) by (cases "extract_tx_hashes (log_file a) (log_read e)") simp
  define st0 where "st0 = \<lparr>receipts = [], successful = 0, failed = 0,
      printed = [(Out, StartingAnalysis), (Out, LogFileIs (log_file a)), (Out, RpcUrlIs (rpc_url a)),
                 (Out, OutputFileIs (output_path a)), (Out, BlankLine)] @ evs @ [(Out, FetchingReceipts)],
      requests = []\<rparr>"
  have "(Out, SummaryHeader) \<notin> set evs"
    using extract_no_summary [of "log_file a" "log_read e"] ex by simp
  then have ns: "(Out, SummaryHeader) \<notin> set (printed st0)"
    by (simp add: st0_def)
  from fetch_loop_returns [OF assms(3), of "length hs" st0] obtain st where
    st: "fetch_loop (endpoint e) (length hs) 1 hs st0 = Inr st"
      "receipts st = receipts st0 @ map receipt_record (filter fetch_succeeded (outcomes (endpoint e) 1 hs))"
      "successful st = successful st0 + length (filter fetch_succeeded (outcomes (endpoint e) 1 hs))"
      "failed st = failed st0 + length (filter fetch_failed (outcomes (endpoint e) 1 hs))"
      "requests st = requests st0 @ hs"
    by blast
  from fetch_loop_no_summary [OF ns, of "endpoint e" "length hs" 1 hs] st(1)
  have "(Out, SummaryHeader) \<notin> set (printed st)"
    by simp
  moreover have "main a e = save_and_summarise a (output_write e) (length hs) st"
    using ex assms(2) st(1) by (simp add: main_def st0_def)
  ultimately show ?thesis
    using st by (auto simp: st0_def)
qed

lemma main_raised_in_loop:
  assumes "snd (extract_tx_hashes (log_file a) (log_read e)) = Inr hs" and "hs \<noteq> []"
    and "\<not> list_all fetch_returned (outcomes (endpoint e) 1 hs)"
  shows "exit_status (main a e) = 1 \<and> uncaught (main a e) \<noteq> None
      \<and> output_file (main a e) = Untouched
      \<and> (Out, SummaryHeader) \<notin> set (console (main a e))"
proof -
  obtain evs where ex: "extract_tx_hashes (log_file a) (log_read e) = (evs, Inr hs)"
    using assms(1) by (cases "extract_tx_hashes (log_file a) (log_read e)") simp
  define st0 where "st0 = \<lparr>receipts = [], successful = 0, failed = 0,
      printed = [(Out, StartingAnalysis), (Out, LogFileIs (log_file a)), (Out, RpcUrlIs (rpc_url a)),
                 (Out, OutputFileIs (output_path a)), (Out, BlankLine)] @ evs @ [(Out, FetchingReceipts)],
      requests = []\<rparr>"
  have "(Out, SummaryHeader) \<notin> set evs"
    using extract_no_summary [of "log_file a" "log_read e"] ex by simp
  then have ns: "(Out, SummaryHeader) \<notin> set (printed st0)"
    by (simp add: st0_def)
  obtain x st where l: "fetch_loop (endpoint e) (length hs) 1 hs st0 = Inl (x, st)"
    using assms(3) fetch_loop_Inr_returned [of "endpoint e" "length hs" 1 hs st0]
    by (cases "fetch_loop (endpoint e) (length hs) 1 hs st0") auto
  from fetch_loop_no_summary [OF ns, of "endpoint e" "length hs" 1 hs] l
  have "(Out, SummaryHeader) \<notin> set (printed st)"
    by simp
  then show ?thesis
    using ex assms(2) l by (simp add: main_def st0_def)
qed

lemma save_write_fails:
  assumes "w \<noteq> WriteOk"
  shows "exit_status (save_and_summarise a w n st) = 1
     \<and> uncaught (save_and_summarise a w n st) = None
     \<and> console (save_and_summarise a w n st)
         = printed st @ [(Out, SavingResults (output_path a)), (Err, ErrWritingOutput)]
     \<and> rpc_requests (save_and_summarise a w n st) = requests st
     \<and> output_file (save_and_summarise a w n st) = (if w = OpenFails then Untouched else Damaged)"
  using assms by (cases w) (simp_all add: save_and_summarise_def)

lemma save_gas_raises:
  assumes "collect_gas_used (receipts st) [] = Inl ex"
  shows "save_and_summarise a WriteOk n st =
     \<lparr>exit_status = 1, uncaught = Some ex,
      console = printed st @ [(Out, SavingResults (output_path a)), (Out, SavedReceipts (length (receipts st)))],
      rpc_requests = requests st, output_file = Written (JArray (receipts st))\<rparr>"
  using assms by (simp add: save_and_summarise_def)

lemma save_summary:
  assumes "collect_gas_used (receipts st) [] = Inr vs"
  shows "save_and_summarise a WriteOk n st =
     \<lparr>exit_status = 0, uncaught = None,
      console = printed st @ [(Out, SavingResults (output_path a)), (Out, SavedReceipts (length (receipts st))),
                  (Out, SummaryHeader), (Out, TotalTransactions n),
                  (Out, Successful (successful st)), (Out, Failed (failed st)),
                  (Out, OutputFileIs (output_path a))] @ gas_report vs,
      rpc_requests = requests st, output_file = Written (JArray (receipts st))\<rparr>"
  using assms by (simp add: save_and_summarise_def)


lemma map_fst_outcomes: "map fst (outcomes rpc i hs) = hs"
  by (induction hs arbitrary: i) simp_all


lemma failed_returned: "list_all fetch_failed os \<Longrightarrow> list_all fetch_returned os"
proof (induction os)
  case Nil
  then show ?case by simp
next
  case (Cons x os)
  obtain h res where "x = (h, res)" by (cases x)
  with Cons show ?case by (cases res) auto
qed

lemma failed_no_success: "list_all fetch_failed os \<Longrightarrow> filter fetch_succeeded os = []"
proof (induction os)
  case Nil
  then show ?case by simp
next
  case (Cons x os)
  obtain h res where "x = (h, res)" by (cases x)
  with Cons show ?case by (cases res) auto
qed

text \<open>Every run is of one of four kinds.\<close>

lemma main_kinds:
  obtains (exit) code where "snd (extract_tx_hashes (log_file a) (log_read e)) = Inl code"
  | (no_hashes) "snd (extract_tx_hashes (log_file a) (log_read e)) = Inr []"
  | (raised) hs where "snd (extract_tx_hashes (log_file a) (log_read e)) = Inr hs" "hs \<noteq> []"
      "\<not> list_all fetch_returned (outcomes (endpoint e) 1 hs)"
  | (saved) hs where "snd (extract_tx_hashes (log_file a) (log_read e)) = Inr hs" "hs \<noteq> []"
      "list_all fetch_returned (outcomes (endpoint e) 1 hs)"
proof (cases "snd (extract_tx_hashes (log_file a) (log_read e))")
  case (Inl code)
  then show ?thesis by (rule exit)
next
  case (Inr hs)
  show ?thesis
  proof (cases "hs = []")
    case True
    with Inr show ?thesis by (simp add: no_hashes)
  next
    case False
    with Inr show ?thesis
      by (cases "list_all fetch_returned (outcomes (endpoint e) 1 hs)") (auto intro: raised saved)
  qed
qed

lemma main_written:
  assumes "output_file (main a e) = Written v"
  shows "\<exists>hs st. snd (extract_tx_hashes (log_file a) (log_read e)) = Inr hs \<and> hs \<noteq> []
      \<and> list_all fetch_returned (outcomes (endpoint e) 1 hs)
      \<and> output_write e = WriteOk
      \<and> main a e = save_and_summarise a WriteOk (length hs) st
      \<and> v = JArray (receipts st)
      \<and> receipts st = map receipt_record (filter fetch_succeeded (outcomes (endpoint e) 1 hs))
      \<and> successful st = length (filter fetch_succeeded (outcomes (endpoint e) 1 hs))
      \<and> failed st = length (filter fetch_failed (outcomes (endpoint e) 1 hs))
      \<and> requests st = hs
      \<and> (Out, SummaryHeader) \<notin> set (printed st)"
proof (cases rule: main_kinds [of a e])
  case (exit code)
  from main_exit [OF this] assms show ?thesis by simp
next
  case no_hashes
  from main_no_hashes [OF this] assms show ?thesis by simp
next
  case (raised hs)
  from main_raised_in_loop [OF this] assms show ?thesis by simp
next
  case (saved hs)
  from main_saved [OF this] obtain st where
    st: "main a e = save_and_summarise a (output_write e) (length hs) st"
      "receipts st = map receipt_record (filter fetch_succeeded (outcomes (endpoint e) 1 hs))"
      "successful st = length (filter fetch_succeeded (outcomes (endpoint e) 1 hs))"
      "failed st = length (filter fetch_failed (outcomes (endpoint e) 1 hs))"
      "requests st = hs"
      "(Out, SummaryHeader) \<notin> set (printed st)"
    by blast
  have w: "output_write e = WriteOk"
  proof (rule ccontr)
    assume "output_write e \<noteq> WriteOk"
    from save_write_fails [OF this, of a "length hs" st] st(1) assms show False
      by (simp split: if_splits)
  qed
  have "v = JArray (receipts st)"
    using assms st(1) w
    by (cases "collect_gas_used (receipts st) []") (simp_all add: save_gas_raises save_summary)
  with saved st w show ?thesis by auto
qed


subsection \<open>Early exit and fatal errors\<close>

text \<open>
  C7: if the log scanner extracts zero hashes, the program prints a message and exits
  with status 0, without issuing any RPC request and without touching the output
  file.
\<close>

theorem no_hashes_early_exit:
  assumes "snd (extract_tx_hashes (log_file a) (log_read e)) = Inr []"
  shows "exit_status (main a e) = 0 \<and> uncaught (main a e) = None
     \<and> last (console (main a e)) = (Out, NoHashesFound)
     \<and> rpc_requests (main a e) = []
     \<and> output_file (main a e) = Untouched"
  by (simp add: main_no_hashes [OF assms])

theorem no_hashes_early_exit_witness:
  "snd (extract_tx_hashes (log_file sample_args) (log_read (sample_env\<lparr>log_read := Content ''INFO spammer started''\<rparr>))) = Inr []
   \<and> exit_status (main sample_args (sample_env\<lparr>log_read := Content ''INFO spammer started''\<rparr>)) = 0
   \<and> uncaught (main sample_args (sample_env\<lparr>log_read := Content ''INFO spammer started''\<rparr>)) = None
   \<and> last (console (main sample_args (sample_env\<lparr>log_read := Content ''INFO spammer started''\<rparr>))) = (Out, NoHashesFound)
   \<and> rpc_requests (main sample_args (sample_env\<lparr>log_read := Content ''INFO spammer started''\<rparr>)) = []
   \<and> output_file (main sample_args (sample_env\<lparr>log_read := Content ''INFO spammer started''\<rparr>)) = Untouched"
proof -
  have h: "snd (extract_tx_hashes (log_file sample_args)
      (log_read (sample_env\<lparr>log_read := Content ''INFO spammer started''\<rparr>))) = Inr []"
    by code_simp
  from no_hashes_early_exit [OF h] h show ?thesis
    by blast
qed

text \<open>
  C8: a missing log file ends the run with a diagnostic on the error stream and exit
  status 1, before any request and without touching the output file; a failure to
  write the output file (at \<open>open\<close> or during \<open>json.dump\<close>) ends the run with a
  diagnostic and exit status 1 although every hash has been fetched.
\<close>

theorem fatal_errors:
  "(log_read e1 = FileNotFound \<longrightarrow>
      exit_status (main a e1) = 1
      \<and> last (console (main a e1)) = (Err, ErrFileNotFound (log_file a))
      \<and> rpc_requests (main a e1) = []
      \<and> output_file (main a e1) = Untouched)
   \<and> (snd (extract_tx_hashes (log_file a) (log_read e2)) = Inr hs \<and> hs \<noteq> []
        \<and> list_all fetch_returned (outcomes (endpoint e2) 1 hs) \<and> output_write e2 \<noteq> WriteOk \<longrightarrow>
      exit_status (main a e2) = 1
      \<and> last (console (main a e2)) = (Err, ErrWritingOutput)
      \<and> rpc_requests (main a e2) = hs
      \<and> output_file (main a e2) = (if output_write e2 = OpenFails then Untouched else Damaged))"
proof (intro conjI impI)
  assume nf: "log_read e1 = FileNotFound"
  then have "snd (extract_tx_hashes (log_file a) (log_read e1)) = Inl 1"
    by simp
  from main_exit [OF this] nf
  show "exit_status (main a e1) = 1"
    and "last (console (main a e1)) = (Err, ErrFileNotFound (log_file a))"
    and "rpc_requests (main a e1) = []"
    and "output_file (main a e1) = Untouched"
    by simp_all
next
  assume h: "snd (extract_tx_hashes (log_file a) (log_read e2)) = Inr hs \<and> hs \<noteq> []
        \<and> list_all fetch_returned (outcomes (endpoint e2) 1 hs) \<and> output_write e2 \<noteq> WriteOk"
  then obtain st where st: "main a e2 = save_and_summarise a (output_write e2) (length hs) st"
      "requests st = hs"
    using main_saved [of a e2 hs] by blast
  from h have "output_write e2 \<noteq> WriteOk" by simp
  from save_write_fails [OF this, of a "length hs" st] st
  show "exit_status (main a e2) = 1"
    and "last (console (main a e2)) = (Err, ErrWritingOutput)"
    and "rpc_requests (main a e2) = hs"
    and "output_file (main a e2) = (if output_write e2 = OpenFails then Untouched else Damaged)"
    by simp_all
qed

theorem fatal_errors_witness:
  "(log_read (sample_env\<lparr>log_read := FileNotFound\<rparr>) = FileNotFound
    \<and> exit_status (main sample_args (sample_env\<lparr>log_read := FileNotFound\<rparr>)) = 1
    \<and> last (console (main sample_args (sample_env\<lparr>log_read := FileNotFound\<rparr>)))
        = (Err, ErrFileNotFound ''dex_spammer.log'')
    \<and> rpc_requests (main sample_args (sample_env\<lparr>log_read := FileNotFound\<rparr>)) = []
    \<and> output_file (main sample_args (sample_env\<lparr>log_read := FileNotFound\<rparr>)) = Untouched)
   \<and> (snd (extract_tx_hashes (log_file sample_args) (log_read (sample_env\<lparr>output_write := OpenFails\<rparr>)))
         = Inr [hash_a, hash_b, hash_c]
    \<and> [hash_a, hash_b, hash_c] \<noteq> []
    \<and> list_all fetch_returned (outcomes (endpoint (sample_env\<lparr>output_write := OpenFails\<rparr>)) 1 [hash_a, hash_b, hash_c])
    \<and> output_write (sample_env\<lparr>output_write := OpenFails\<rparr>) \<noteq> WriteOk
    \<and> exit_status (main sample_args (sample_env\<lparr>output_write := OpenFails\<rparr>)) = 1
    \<and> last (console (main sample_args (sample_env\<lparr>output_write := OpenFails\<rparr>))) = (Err, ErrWritingOutput)
    \<and> rpc_requests (main sample_args (sample_env\<lparr>output_write := OpenFails\<rparr>)) = [hash_a, hash_b, hash_c]
    \<and> output_file (main sample_args (sample_env\<lparr>output_write := OpenFails\<rparr>)) = Untouched)"
proof -
  have h1: "log_read (sample_env\<lparr>log_read := FileNotFound\<rparr>) = FileNotFound"
    by simp
  have h2: "snd (extract_tx_hashes (log_file sample_args) (log_read (sample_env\<lparr>output_write := OpenFails\<rparr>)))
         = Inr [hash_a, hash_b, hash_c]"
    by code_simp
  have h3: "list_all fetch_returned (outcomes (endpoint (sample_env\<lparr>output_write := OpenFails\<rparr>)) 1 [hash_a, hash_b, hash_c])"
    by code_simp
  have h4: "output_write (sample_env\<lparr>output_write := OpenFails\<rparr>) \<noteq> WriteOk"
    by simp
  have n: "log_file sample_args = ''dex_spammer.log''"
    by (simp add: sample_args_def)
  from fatal_errors [of "sample_env\<lparr>log_read := FileNotFound\<rparr>" sample_args
      "sample_env\<lparr>output_write := OpenFails\<rparr>" "[hash_a, hash_b, hash_c]"] h1 h2 h3 h4 n
  show ?thesis
    by simp
qed

subsection \<open>Counts and output\<close>



text \<open>
  C10: if at least one hash is extracted and every fetch fails, the output file is
  still written, with an empty JSON array, and when the write succeeds the program
  ends with status 0.
\<close>

theorem all_fetches_fail:
  assumes "snd (extract_tx_hashes (log_file a) (log_read e)) = Inr hs" and "hs \<noteq> []"
    and "list_all fetch_failed (outcomes (endpoint e) 1 hs)"
    and "output_write e = WriteOk"
  shows "output_file (main a e) = Written (JArray [])
     \<and> exit_status (main a e) = 0 \<and> uncaught (main a e) = None
     \<and> rpc_requests (main a e) = hs"
proof -
  from main_saved [OF assms(1,2) failed_returned [OF assms(3)]] obtain st where
    st: "main a e = save_and_summarise a (output_write e) (length hs) st"
      "receipts st = map receipt_record (filter fetch_succeeded (outcomes (endpoint e) 1 hs))"
      "requests st = hs"
    by blast
  have r: "receipts st = []"
    using st(2) failed_no_success [OF assms(3)] by simp
  then have "collect_gas_used (receipts st) [] = Inr []"
    by simp
  from save_summary [OF this, of a "length hs"] st(1,3) r assms(4) show ?thesis
    by simp
qed

theorem all_fetches_fail_witness:
  "snd (extract_tx_hashes (log_file sample_args)
          (log_read (sample_env\<lparr>endpoint := constant_endpoint (response_with JNull)\<rparr>)))
     = Inr [hash_a, hash_b, hash_c]
   \<and> [hash_a, hash_b, hash_c] \<noteq> []
   \<and> list_all fetch_failed
        (outcomes (endpoint (sample_env\<lparr>endpoint := constant_endpoint (response_with JNull)\<rparr>)) 1
           [hash_a, hash_b, hash_c])
   \<and> output_write (sample_env\<lparr>endpoint := constant_endpoint (response_with JNull)\<rparr>) = WriteOk
   \<and> output_file (main sample_args (sample_env\<lparr>endpoint := constant_endpoint (response_with JNull)\<rparr>))
       = Written (JArray [])
   \<and> exit_status (main sample_args (sample_env\<lparr>endpoint := constant_endpoint (response_with JNull)\<rparr>)) = 0
   \<and> uncaught (main sample_args (sample_env\<lparr>endpoint := constant_endpoint (response_with JNull)\<rparr>)) = None
   \<and> rpc_requests (main sample_args (sample_env\<lparr>endpoint := constant_endpoint (response_with JNull)\<rparr>))
       = [hash_a, hash_b, hash_c]"
proof -
  have h1: "snd (extract_tx_hashes (log_file sample_args)
          (log_read (sample_env\<lparr>endpoint := constant_endpoint (response_with JNull)\<rparr>)))
     = Inr [hash_a, hash_b, hash_c]"
    by code_simp
  have h2: "[hash_a, hash_b, hash_c] \<noteq> []"
    by simp
  have h3: "list_all fetch_failed
        (outcomes (endpoint (sample_env\<lparr>endpoint := constant_endpoint (response_with JNull)\<rparr>)) 1
           [hash_a, hash_b, hash_c])"
    by code_simp
  have h4: "output_write (sample_env\<lparr>endpoint := constant_endpoint (response_with JNull)\<rparr>) = WriteOk"
    by (simp add: sample_env_def)
  from all_fetches_fail [OF h1 h2 h3 h4] h1 h3 h4 show ?thesis
    by simp
qed

subsection \<open>Success of a fetch\<close>

lemma map_of_dict_get:
  "key \<in> set (map fst kvs) \<Longrightarrow> map_of kvs key = Some (dict_get kvs key)"
  by (cases "map_of kvs key") (auto simp: dict_get_def map_of_eq_None_iff)

lemma fetch_object:
  "fetch_transaction_receipt h (Response (JObject kvs)) =
     (if ''error'' \<in> set (map fst kvs)
      then ([(Err, RpcError h (dict_get kvs ''error''))], Inr JNull)
      else ([], Inr (dict_get kvs ''result'')))"
  using map_of_dict_get [of "''error''" kvs] by simp

lemma fetch_receipt_truthy:
  assumes "snd (fetch_transaction_receipt h outcome) = Inr r" and "truthy r"
  shows "\<exists>kvs. outcome = Response (JObject kvs) \<and> ''error'' \<notin> set (map fst kvs)
     \<and> map_of kvs ''result'' = Some r"
proof (cases outcome)
  case RequestException
  with assms show ?thesis by auto
next
  case (Response result)
  show ?thesis
  proof (cases result)
    case (JObject kvs)
    with Response assms have "''error'' \<notin> set (map fst kvs)" and r: "r = dict_get kvs ''result''"
      by (auto simp: fetch_object simp del: fetch_transaction_receipt.simps split: if_splits)
    moreover from r assms(2) have "map_of kvs ''result'' = Some r"
      by (cases "map_of kvs ''result''") (auto simp: dict_get_def)
    ultimately show ?thesis
      using Response JObject by simp
  qed (use Response assms in \<open>auto split: if_splits bool.splits\<close>)
qed

lemma nth_outcomes:
  "k < length hs \<Longrightarrow>
     outcomes rpc i hs ! k = (hs ! k, snd (fetch_transaction_receipt (hs ! k) (rpc (i + k) (hs ! k))))"
proof (induction hs arbitrary: i k)
  case Nil
  then show ?case by simp
next
  case (Cons h hs)
  then show ?case by (cases k) simp_all
qed

text \<open>
  C2, as stated: a fetch is counted as successful exactly when the response has no
  \<open>error\<close> field and its \<open>result\<close> is a non-null object, an empty one included. This
  fails for the response whose \<open>result\<close> is the empty object: the specification's
  criterion holds of it, and the loop counts the hash as failed and appends nothing,
  because \<open>if receipt:\<close> tests the truth value of the receipt.
\<close>

theorem counted_successful_counterexample:
  "constant_endpoint (response_with (JObject [])) 1 hash_a
     = Response (JObject [(''jsonrpc'', JString ''2.0''), (''id'', JInt 1), (''result'', JObject [])])
   \<and> claimed_successful (JObject [(''jsonrpc'', JString ''2.0''), (''id'', JInt 1), (''result'', JObject [])])
   \<and> fetch_step (constant_endpoint (response_with (JObject []))) 1 1 hash_a empty_state
       = Inr \<lparr>receipts = [], successful = 0, failed = 1,
              printed = [(Out, FetchingProgress 1 1 hash_a), (Out, CrossMark)],
              requests = [hash_a]\<rparr>"
  by code_simp

text \<open>
  C2, amended: for every fetched hash whose response is a JSON object, the fetch is
  counted as successful exactly when the response has no \<open>error\<close> field and its
  \<open>result\<close> field is true in Python's sense (not null or missing, not \<open>false\<close>, not
  zero, not an empty string, array or object); then the hash is appended to the output
  with that result. Otherwise (an \<open>error\<close> field, a null result, an empty receipt
  object) the hash is counted as failed and left out of the output. In both cases the
  loop goes on with the next hash.
\<close>

theorem counted_successful_iff_truthy:
  assumes "rpc i tx_hash = Response (JObject kvs)"
  shows "\<exists>st'. fetch_step rpc n_hashes i tx_hash st = Inr st'
     \<and> fetch_loop rpc n_hashes i (tx_hash # rest) st = fetch_loop rpc n_hashes (Suc i) rest st'
     \<and> requests st' = requests st @ [tx_hash]
     \<and> (if ''error'' \<notin> set (map fst kvs) \<and> truthy (dict_get kvs ''result'')
         then receipts st' = receipts st
                @ [JObject [(''tx_hash'', JString tx_hash), (''receipt'', dict_get kvs ''result'')]]
              \<and> successful st' = successful st + 1 \<and> failed st' = failed st
         else receipts st' = receipts st
              \<and> successful st' = successful st \<and> failed st' = failed st + 1)"
proof -
  have "snd (fetch_transaction_receipt tx_hash (rpc i tx_hash))
      = Inr (if ''error'' \<in> set (map fst kvs) then JNull else dict_get kvs ''result'')"
    by (simp add: assms fetch_object del: fetch_transaction_receipt.simps)
  from fetch_step_Inr [of tx_hash rpc i _ n_hashes st, OF this] obtain st' where
    st': "fetch_step rpc n_hashes i tx_hash st = Inr st'"
      "receipts st' = receipts st @
         (if truthy (if ''error'' \<in> set (map fst kvs) then JNull else dict_get kvs ''result'')
          then [receipt_record (tx_hash, Inr (if ''error'' \<in> set (map fst kvs) then JNull else dict_get kvs ''result''))]
          else [])"
      "successful st' = successful st +
         (if truthy (if ''error'' \<in> set (map fst kvs) then JNull else dict_get kvs ''result'') then 1 else 0)"
      "failed st' = failed st +
         (if truthy (if ''error'' \<in> set (map fst kvs) then JNull else dict_get kvs ''result'') then 0 else 1)"
      "requests st' = requests st @ [tx_hash]"
    by blast
  show ?thesis
    by (rule exI [of _ st']) (use st' in simp)
qed

theorem counted_successful_iff_truthy_witness:
  "sample_endpoint 1 hash_a
     = Response (JObject [(''jsonrpc'', JString ''2.0''), (''id'', JInt 1),
         (''result'', JObject [(''status'', JString ''0x1''), (''gasUsed'', JString ''0x5208'')])])
   \<and> (\<exists>st'. fetch_step sample_endpoint 3 1 hash_a empty_state = Inr st'
     \<and> fetch_loop sample_endpoint 3 1 (hash_a # [hash_b, hash_c]) empty_state
         = fetch_loop sample_endpoint 3 (Suc 1) [hash_b, hash_c] st'
     \<and> requests st' = requests empty_state @ [hash_a]
     \<and> receipts st' = receipts empty_state
          @ [JObject [(''tx_hash'', JString hash_a),
               (''receipt'', JObject [(''status'', JString ''0x1''), (''gasUsed'', JString ''0x5208'')])]]
     \<and> successful st' = successful empty_state + 1 \<and> failed st' = failed empty_state)"
proof -
  have h: "sample_endpoint 1 hash_a
     = Response (JObject [(''jsonrpc'', JString ''2.0''), (''id'', JInt 1),
         (''result'', JObject [(''status'', JString ''0x1''), (''gasUsed'', JString ''0x5208'')])])"
    by code_simp
  have d: "dict_get [(''jsonrpc'', JString ''2.0''), (''id'', JInt 1),
         (''result'', JObject [(''status'', JString ''0x1''), (''gasUsed'', JString ''0x5208'')])] ''result''
      = JObject [(''status'', JString ''0x1''), (''gasUsed'', JString ''0x5208'')]"
    by code_simp
  from counted_successful_iff_truthy [of sample_endpoint 1 hash_a _ 3 empty_state "[hash_b, hash_c]", OF h]
    h d show ?thesis
    by simp
qed

text \<open>
  C6: every successfully fetched receipt appears in the output JSON array exactly
  once, as an object pairing the transaction hash with the receipt as the node
  returned it, in the order of the hashes. The array is the list of the records of the
  successful fetches, request by request, and the receipt of each record is the
  \<open>result\<close> field of the response to the request of its hash.
\<close>

theorem output_records:
  assumes "output_file (main a e) = Written v"
  shows "\<exists>hs. snd (extract_tx_hashes (log_file a) (log_read e)) = Inr hs
     \<and> v = JArray (map receipt_record (filter fetch_succeeded (outcomes (endpoint e) 1 hs)))
     \<and> (\<forall>k<length hs. fetch_succeeded (outcomes (endpoint e) 1 hs ! k) \<longrightarrow>
          (\<exists>kvs r. endpoint e (Suc k) (hs ! k) = Response (JObject kvs)
             \<and> map_of kvs ''result'' = Some r
             \<and> receipt_record (outcomes (endpoint e) 1 hs ! k)
                 = JObject [(''tx_hash'', JString (hs ! k)), (''receipt'', r)]))"
proof -
  from main_written [OF assms] obtain hs and st :: fetch_state where
    m: "snd (extract_tx_hashes (log_file a) (log_read e)) = Inr hs"
      "v = JArray (receipts st)"
      "receipts st = map receipt_record (filter fetch_succeeded (outcomes (endpoint e) 1 hs))"
    by blast
  have "\<exists>kvs r. endpoint e (Suc k) (hs ! k) = Response (JObject kvs)
             \<and> map_of kvs ''result'' = Some r
             \<and> receipt_record (outcomes (endpoint e) 1 hs ! k)
                 = JObject [(''tx_hash'', JString (hs ! k)), (''receipt'', r)]"
    if k: "k < length hs" and s: "fetch_succeeded (outcomes (endpoint e) 1 hs ! k)" for k
  proof -
    let ?res = "snd (fetch_transaction_receipt (hs ! k) (endpoint e (Suc k) (hs ! k)))"
    have o: "outcomes (endpoint e) 1 hs ! k = (hs ! k, ?res)"
      using nth_outcomes [OF k, of "endpoint e" 1] by simp
    with s obtain r where r: "?res = Inr r" "truthy r"
      by (cases ?res) auto
    from fetch_receipt_truthy [OF r] obtain kvs where
      "endpoint e (Suc k) (hs ! k) = Response (JObject kvs)" "map_of kvs ''result'' = Some r"
      by blast
    with o r show ?thesis by simp
  qed
  with m show ?thesis by blast
qed

theorem output_records_witness:
  "output_file (main sample_args (sample_env\<lparr>endpoint := second_only_endpoint\<rparr>))
     = Written (JArray [JObject [(''tx_hash'', JString hash_b),
                                 (''receipt'', JObject [(''gasUsed'', JString ''0x5208'')])]])
   \<and> (\<exists>hs. snd (extract_tx_hashes (log_file sample_args)
                  (log_read (sample_env\<lparr>endpoint := second_only_endpoint\<rparr>))) = Inr hs
     \<and> JArray [JObject [(''tx_hash'', JString hash_b),
                         (''receipt'', JObject [(''gasUsed'', JString ''0x5208'')])]]
         = JArray (map receipt_record (filter fetch_succeeded
             (outcomes (endpoint (sample_env\<lparr>endpoint := second_only_endpoint\<rparr>)) 1 hs)))
     \<and> (\<forall>k<length hs.
          fetch_succeeded (outcomes (endpoint (sample_env\<lparr>endpoint := second_only_endpoint\<rparr>)) 1 hs ! k) \<longrightarrow>
          (\<exists>kvs r. endpoint (sample_env\<lparr>endpoint := second_only_endpoint\<rparr>) (Suc k) (hs ! k)
                      = Response (JObject kvs)
             \<and> map_of kvs ''result'' = Some r
             \<and> receipt_record (outcomes (endpoint (sample_env\<lparr>endpoint := second_only_endpoint\<rparr>)) 1 hs ! k)
                 = JObject [(''tx_hash'', JString (hs ! k)), (''receipt'', r)])))"
proof -
  have h: "output_file (main sample_args (sample_env\<lparr>endpoint := second_only_endpoint\<rparr>))
     = Written (JArray [JObject [(''tx_hash'', JString hash_b),
                                 (''receipt'', JObject [(''gasUsed'', JString ''0x5208'')])]])"
    by code_simp
  from output_records [OF h] h show ?thesis
    by blast
qed

subsection \<open>Gas statistics\<close>

















end
